theory Spec2Isabelle
  imports Main "HOL-Library.Word" "HOL-Library.Sublist" "HOL-Library.Multiset"
begin

unbundle bit_operations_syntax

section \<open>Data model of pr (src/main.go)\<close>

text \<open>
  Go strings are byte sequences, as \<^typ>\<open>string\<close> is. A Go \<open>map[string]string\<close> is an
  association list with distinct keys; its order stands for the order in which this run
  of the program iterates the map (Go leaves it unspecified).
\<close>

record FavouriteSession =
  fs_Name :: string
  fs_Path :: string
  fs_Cmd :: string
  fs_Aliases :: "string list"
  fs_Env :: "(string \<times> string) list"

text \<open>
  \<open>LastActivity\<close> is a \<open>time.Time\<close> without monotonic reading and with zero nanoseconds:
  the 64-bit count of seconds since year 1 that \<open>Time.ext\<close> holds. The zero \<open>Time\<close> is 0.
\<close>

type_synonym time = "64 word"

record TmuxSession =
  ts_Name :: string
  ts_Attached :: bool
  ts_LastActivity :: time
  ts_WindowsCount :: int
  ts_Path :: string

record FavouritesConfig =
  Sessions :: "FavouriteSession list"
  changed :: bool

section \<open>The process and its surroundings\<close>

text \<open>What a subprocess call hands back: the captured output and the error, if any.\<close>

record cmd_result =
  out :: string
  err :: "string option"

text \<open>
  Everything the program asks of the operating system, of tmux and of the Go library is a
  field of \<open>world\<close>: the answers are parameters of the model. An error is its message.
\<close>

record world =
  Home :: string
  ConfigPath :: string
  os_Getwd :: "string + string"
  isDir :: "string \<Rightarrow> bool"
  os_Mkdir :: "string \<Rightarrow> string option"
  os_ReadDir :: "string \<Rightarrow> string + string list"
  os_Getenv :: "string \<Rightarrow> string"
  exec_LookPath :: "string \<Rightarrow> string + string"
  syscall_Exec :: "string \<Rightarrow> string list \<Rightarrow> string option"
  tmux :: "string list \<Rightarrow> cmd_result"
  os_WriteFile :: "string \<Rightarrow> string \<Rightarrow> string option"
  json_MarshalIndent :: "FavouriteSession list \<Rightarrow> string + string"
  filepath_Base :: "string \<Rightarrow> string"
  filepath_Dir :: "string \<Rightarrow> string"
  filepath_Join :: "string \<Rightarrow> string \<Rightarrow> string"
  sort_Slice :: "(TmuxSession \<Rightarrow> TmuxSession \<Rightarrow> bool) \<Rightarrow> TmuxSession list \<Rightarrow> TmuxSession list"

text \<open>The calls that leave the process, in the order they are made.\<close>

datatype event =
    LogPrintf string
  | TmuxExec "string list"
  | MkdirCall string "32 word"
  | WriteFileCall string string "32 word"
  | SyscallExec string "string list"

text \<open>The mutable part: the global \<open>Config\<close> and the calls made so far.\<close>

record proc =
  Config :: FavouritesConfig
  events :: "event list"

text \<open>
  How a function ends: it returns, \<open>log.Fatalf\<close> exits, \<open>log.Panicf\<close> panics, or
  \<open>syscall.Exec\<close> has replaced the process image.
\<close>

datatype 'a outcome = Returns 'a | Fatal string | Panics string | Replaced

definition emit :: "event \<Rightarrow> proc \<Rightarrow> proc" where
  "emit e st = st\<lparr>events := events st @ [e]\<rparr>"

definition dieIfError_msg :: "string \<Rightarrow> string" where
  "dieIfError_msg e = ''Got error: '' @ e"

section \<open>The favourites store\<close>

text \<open>The search loop of \<open>Touch\<close>: the index of the first record named \<open>name\<close>, or -1.\<close>

fun Touch_found_i :: "string \<Rightarrow> FavouriteSession list \<Rightarrow> int \<Rightarrow> int" where
  "Touch_found_i name [] i = -1"
| "Touch_found_i name (fs1 # rest) i =
     (if fs_Name fs1 = name then i else Touch_found_i name rest (i + 1))"

definition Touch :: "string \<Rightarrow> string \<Rightarrow> FavouritesConfig \<Rightarrow> FavouritesConfig" where
  "Touch name path fc =
     (if prefix ''/tmp/'' path then fc
      else
        let fs = \<lparr>fs_Name = name, fs_Path = path, fs_Cmd = '''', fs_Aliases = [], fs_Env = []\<rparr>;
            found_i = Touch_found_i name (Sessions fc) 0
        in if found_i = 0 then fc
           else
             let fs' = (if found_i > 0 then Sessions fc ! nat found_i else fs);
                 newOrder =
                   [fs'] @
                   (if found_i \<ge> 0
                    then take (nat found_i) (Sessions fc) @ drop (nat found_i + 1) (Sessions fc)
                    else Sessions fc)
             in fc\<lparr>Sessions := newOrder, changed := True\<rparr>)"

text \<open>
  \<open>Save\<close>: \<open>json.MarshalIndent\<close> encodes the exported field \<open>Sessions\<close> only; the file
  mode 0640 is the numeral 416.
\<close>

definition Save :: "world \<Rightarrow> proc \<Rightarrow> unit outcome \<times> proc" where
  "Save w st =
     (if \<not> changed (Config st) then (Returns (), st)
      else
        case json_MarshalIndent w (Sessions (Config st)) of
          Inl e \<Rightarrow> (Panics (dieIfError_msg e), st)
        | Inr bs \<Rightarrow>
            let st' = emit (WriteFileCall (ConfigPath w) bs 416) st
            in (case os_WriteFile w (ConfigPath w) bs of
                  Some e \<Rightarrow> (Panics (dieIfError_msg e), st')
                | None \<Rightarrow> (Returns (), st')))"

section \<open>The session backend\<close>

text \<open>\<open>strings.Split\<close> for a separator of one byte.\<close>

fun strings_Split :: "char \<Rightarrow> string \<Rightarrow> string list" where
  "strings_Split sep [] = [[]]"
| "strings_Split sep (c # cs) =
     (if c = sep then [] # strings_Split sep cs
      else (case strings_Split sep cs of
              [] \<Rightarrow> [[c]]
            | p # ps \<Rightarrow> (c # p) # ps))"



text \<open>
  \<open>time.Unix(sec, 0)\<close> keeps \<open>sec + unixToInternal\<close> in 64 bits; \<open>Time.After\<close>
  compares these counts as signed integers.
\<close>

definition time_Unix :: "int \<Rightarrow> time" where
  "time_Unix sec = word_of_int sec + 62135596800"

definition After :: "time \<Rightarrow> time \<Rightarrow> bool" where
  "After t u = (sint u < sint t)"




definition create_session_args ::
  "string \<Rightarrow> string \<Rightarrow> string \<Rightarrow> (string \<times> string) list \<Rightarrow> string list" where
  "create_session_args name path startCmd env =
     [''new'', ''-c'', path, ''-s'', name, ''-d''] @
     concat (map (\<lambda>(k, v). [''-e'', k @ ''='' @ v]) env) @
     (if startCmd \<noteq> '''' then [startCmd] else [])"

definition createSession ::
  "world \<Rightarrow> string \<Rightarrow> string \<Rightarrow> string \<Rightarrow> (string \<times> string) list \<Rightarrow> proc
     \<Rightarrow> unit outcome \<times> proc" where
  "createSession w name path startCmd env st =
     (let args = create_session_args name path startCmd env;
          st' = emit (TmuxExec args) st
      in case err (tmux w args) of
           Some e \<Rightarrow> (Panics (dieIfError_msg e), st')
         | None \<Rightarrow> (Returns (), st'))"

definition switchToSession :: "world \<Rightarrow> string \<Rightarrow> proc \<Rightarrow> unit outcome \<times> proc" where
  "switchToSession w name st =
     (if os_Getenv w ''TMUX'' \<noteq> ''''
      then
        let args = [''switch-client'', ''-t'', name];
            r = tmux w args;
            st' = emit (TmuxExec args) st
        in (case err r of
              Some e \<Rightarrow> (Panics (dieIfError_msg e), emit (LogPrintf (''failed: '' @ out r)) st')
            | None \<Rightarrow> (Returns (), st'))
      else
        (case exec_LookPath w ''tmux'' of
           Inl e \<Rightarrow> (Panics (dieIfError_msg e), st)
         | Inr tmuxPath \<Rightarrow>
             let argv = [''tmux'', ''attach'', ''-t'', name];
                 st' = emit (SyscallExec tmuxPath argv) st
             in (case syscall_Exec w tmuxPath argv of
                   Some e \<Rightarrow> (Panics (dieIfError_msg e), st')
                 | None \<Rightarrow> (Replaced, st'))))"

section \<open>ChangeSession\<close>

text \<open>
  \<open>countRepeatedChars\<close> ranges over the runes of \<open>s\<close> and returns its length in bytes.
  For an ASCII \<open>char\<close> a rune equals it exactly when it is that one byte, so the test
  is on the bytes.
\<close>

definition countRepeatedChars :: "string \<Rightarrow> char \<Rightarrow> int" where
  "countRepeatedChars s c = (if list_all (\<lambda>ch. ch = c) s then int (length s) else 0)"

text \<open>The ten suffixes: the empty one, then \<open>1\<close> to \<open>9\<close>.\<close>

definition SUFFIXES :: "string list" where
  "SUFFIXES = [''''] @ [''1'', ''2'', ''3''] @ [''4'', ''5'', ''6''] @ [''7'', ''8'', ''9'']"

text \<open>The local variables that resolution fills in.\<close>

record target =
  sessionName :: string
  sessionDirPath :: string
  sessionStartCmd :: string
  sessionEnv :: "(string \<times> string) list"

definition no_target :: target where
  "no_target = \<lparr>sessionName = '''', sessionDirPath = '''', sessionStartCmd = '''', sessionEnv = []\<rparr>"

definition sessionsByName :: "TmuxSession list \<Rightarrow> (string \<rightharpoonup> TmuxSession)" where
  "sessionsByName sessions = fold (\<lambda>s m. m(ts_Name s \<mapsto> s)) sessions Map.empty"

definition of_live :: "TmuxSession \<Rightarrow> target \<Rightarrow> target" where
  "of_live s t = t\<lparr>sessionName := ts_Name s, sessionDirPath := ts_Path s\<rparr>"

definition of_favourite :: "FavouriteSession \<Rightarrow> target \<Rightarrow> target" where
  "of_favourite fs t =
     t\<lparr>sessionName := fs_Name fs, sessionDirPath := fs_Path fs,
       sessionStartCmd := fs_Cmd fs, sessionEnv := fs_Env fs\<rparr>"

text \<open>The branch for an absolute path (lines 386 to 402).\<close>

definition resolve_absolute :: "world \<Rightarrow> string \<Rightarrow> bool \<Rightarrow> proc \<Rightarrow> target outcome \<times> proc" where
  "resolve_absolute w sessionId allowCreateDir st =
     (if \<not> isDir w sessionId then
        if isDir w (filepath_Dir w sessionId) then
          if allowCreateDir \<or> prefix ''/tmp/'' sessionId then
            let st' = emit (MkdirCall sessionId 511) st
            in (case os_Mkdir w sessionId of
                  Some e \<Rightarrow> (Panics (dieIfError_msg e), st')
                | None \<Rightarrow>
                    (Returns (no_target\<lparr>sessionDirPath := sessionId,
                                       sessionName := filepath_Base w sessionId\<rparr>), st'))
          else
            (Fatal (''cannot switch to '' @ sessionId @
                    '' (directory does not exist): use -c flag to create a new directory''), st)
        else
          (Fatal (''cannot switch to '' @ sessionId @
                  '': looks like a dir but does not exist and cannot be created''), st)
      else
        (Returns (no_target\<lparr>sessionDirPath := sessionId,
                           sessionName := filepath_Base w sessionId\<rparr>), st))"

text \<open>The \<open>less\<close> function handed to \<open>sort.Slice\<close> (line 414).\<close>

definition activity_less :: "TmuxSession \<Rightarrow> TmuxSession \<Rightarrow> bool" where
  "activity_less si sj = After (ts_LastActivity si) (ts_LastActivity sj)"

text \<open>
  The branch for a token of dashes (lines 403 to 418). Indexing a slice out of range
  panics in Go.
\<close>

definition resolve_previous :: "world \<Rightarrow> TmuxSession list \<Rightarrow> int \<Rightarrow> target outcome" where
  "resolve_previous w sessions n =
     (if length sessions < 2
      then Fatal ''cannot switch to a previous session (too few sessions)''
      else
        let n' = (if n \<ge> int (length sessions) then int (length sessions) - 1 else n);
            sortedSessions = sort_Slice w activity_less sessions
        in if nat n' < length sortedSessions
           then Returns (of_live (sortedSessions ! nat n') no_target)
           else Panics ''runtime error: index out of range'')"

text \<open>The loops of the last branch (lines 420 to 473).\<close>

definition live_prefix_loop :: "string \<Rightarrow> TmuxSession list \<Rightarrow> target \<Rightarrow> target" where
  "live_prefix_loop sessionId sessions t =
     fold (\<lambda>s t'. if prefix sessionId (ts_Name s) then of_live s t' else t') sessions t"

fun alias_loop :: "string \<Rightarrow> FavouriteSession \<Rightarrow> string list \<Rightarrow> target \<Rightarrow> target" where
  "alias_loop sessionId fs [] t = t"
| "alias_loop sessionId fs (a # as) t =
     (if a = sessionId then of_favourite fs t else alias_loop sessionId fs as t)"

fun favourite_exact_loop :: "string \<Rightarrow> FavouriteSession list \<Rightarrow> target \<Rightarrow> target" where
  "favourite_exact_loop sessionId [] t = t"
| "favourite_exact_loop sessionId (fs # rest) t =
     (if fs_Name fs = sessionId then of_favourite fs t
      else
        let t' = alias_loop sessionId fs (fs_Aliases fs) t
        in if sessionName t' \<noteq> '''' then t' else favourite_exact_loop sessionId rest t')"

fun favourite_prefix_loop :: "string \<Rightarrow> FavouriteSession list \<Rightarrow> target \<Rightarrow> target" where
  "favourite_prefix_loop sessionId [] t = t"
| "favourite_prefix_loop sessionId (fs # rest) t =
     (if prefix sessionId (fs_Name fs) then of_favourite fs t
      else favourite_prefix_loop sessionId rest t)"

definition resolve_named :: "TmuxSession list \<Rightarrow> FavouriteSession list \<Rightarrow> string \<Rightarrow> target" where
  "resolve_named sessions favs sessionId =
     (let t1 = (case sessionsByName sessions sessionId of
                  Some s \<Rightarrow> of_live s no_target
                | None \<Rightarrow> no_target);
          t2 = (if sessionName t1 = '''' then live_prefix_loop sessionId sessions t1 else t1);
          t3 = (if sessionName t2 = '''' then favourite_exact_loop sessionId favs t2 else t2);
          t4 = (if sessionName t3 = '''' then favourite_prefix_loop sessionId favs t3 else t3)
      in t4)"

text \<open>The search in the home directory (lines 475 to 500).\<close>

fun home_prefix_loop :: "world \<Rightarrow> string \<Rightarrow> string list \<Rightarrow> target \<Rightarrow> target" where
  "home_prefix_loop w sessionId [] t = t"
| "home_prefix_loop w sessionId (e # es) t =
     (if prefix sessionId e \<and> isDir w (filepath_Join w (Home w) e)
      then t\<lparr>sessionDirPath := filepath_Join w (Home w) e,
             sessionName := filepath_Base w (filepath_Join w (Home w) e)\<rparr>
      else home_prefix_loop w sessionId es t)"

definition resolve_home :: "world \<Rightarrow> string \<Rightarrow> target \<Rightarrow> target outcome" where
  "resolve_home w sessionId t =
     (let p = filepath_Join w (Home w) sessionId;
          t1 = (if sessionName t = '''' \<and> isDir w p
                then t\<lparr>sessionDirPath := p, sessionName := filepath_Base w p\<rparr>
                else t)
      in if sessionName t1 = ''''
         then (case os_ReadDir w (Home w) of
                 Inl e \<Rightarrow> Panics (dieIfError_msg e)
               | Inr entries \<Rightarrow>
                   let t2 = home_prefix_loop w sessionId entries t1
                   in if sessionName t2 = ''''
                      then Fatal (''directory ~/'' @ sessionId @ ''* does not exist'')
                      else Returns t2)
         else Returns t1)"

text \<open>Binding a step that may end the run to what follows it.\<close>

fun and_then ::
  "'a outcome \<times> proc \<Rightarrow> ('a \<Rightarrow> proc \<Rightarrow> 'b outcome \<times> proc) \<Rightarrow> 'b outcome \<times> proc" where
  "and_then (Returns x, st) f = f x st"
| "and_then (Fatal m, st) f = (Fatal m, st)"
| "and_then (Panics m, st) f = (Panics m, st)"
| "and_then (Replaced, st) f = (Replaced, st)"

text \<open>Resolution: lines 376 to 500 of \<open>ChangeSession\<close>.\<close>

definition ChangeSession_resolve ::
  "world \<Rightarrow> TmuxSession list \<Rightarrow> string \<Rightarrow> bool \<Rightarrow> proc \<Rightarrow> target outcome \<times> proc" where
  "ChangeSession_resolve w sessions sessionId0 allowCreateDir st =
     and_then
       (if sessionId0 = ''.''
        then (case os_Getwd w of
                Inl e \<Rightarrow> (Panics (dieIfError_msg e), st)
              | Inr x \<Rightarrow> (Returns x, st))
        else (Returns sessionId0, st))
       (\<lambda>sessionId st.
          and_then
            (if prefix ''/'' sessionId then resolve_absolute w sessionId allowCreateDir st
             else if countRepeatedChars sessionId (CHR ''-'') > 0
             then (resolve_previous w sessions (countRepeatedChars sessionId (CHR ''-'')), st)
             else (Returns (resolve_named sessions (Sessions (Config st)) sessionId), st))
            (\<lambda>t st. (resolve_home w sessionId t, st)))"

text \<open>The suffix loop: lines 502 to 523 of \<open>ChangeSession\<close>.\<close>

definition occupied_msg :: "string \<Rightarrow> string" where
  "occupied_msg name =
     ''cannot create session '' @ name @ '' because names '' @ name @ '', '' @
     (name @ SUFFIXES ! 1) @ ''..'' @ (name @ SUFFIXES ! (length SUFFIXES - 1)) @
     '' are occupied''"

fun suffix_loop ::
  "world \<Rightarrow> (string \<rightharpoonup> TmuxSession) \<Rightarrow> target \<Rightarrow> string list \<Rightarrow> proc \<Rightarrow> unit outcome \<times> proc" where
  "suffix_loop w byName t [] st = (Fatal (occupied_msg (sessionName t)), st)"
| "suffix_loop w byName t (sfx # rest) st =
     (case byName (sessionName t @ sfx) of
        Some s \<Rightarrow>
          if ts_Path s = sessionDirPath t
          then switchToSession w (ts_Name s)
                 (st\<lparr>Config := Touch (ts_Name s) (ts_Path s) (Config st)\<rparr>)
          else suffix_loop w byName t rest st
      | None \<Rightarrow>
          and_then
            (createSession w (sessionName t) (sessionDirPath t) (sessionStartCmd t) (sessionEnv t)
               (st\<lparr>Config := Touch (sessionName t) (sessionDirPath t) (Config st)\<rparr>))
            (\<lambda>_ st'. switchToSession w (sessionName t) st'))"

definition ChangeSession ::
  "world \<Rightarrow> TmuxSession list \<Rightarrow> string \<Rightarrow> bool \<Rightarrow> proc \<Rightarrow> unit outcome \<times> proc" where
  "ChangeSession w sessions sessionId allowCreateDir st =
     and_then (ChangeSession_resolve w sessions sessionId allowCreateDir st)
       (\<lambda>t st'. suffix_loop w (sessionsByName sessions) t SUFFIXES st')"

section \<open>sort.Slice of the Go standard library\<close>

text \<open>
  Modelled from the Go standard library, which is not among the sources of the
  repository: \<open>ChangeSession\<close> sorts with \<open>sort.Slice\<close> of package sort, and the README asks
  for Go 1.20 or later. Since Go 1.19 \<open>sort.Slice\<close> is a pattern-defeating quicksort over
  the \<open>Less\<close> and \<open>Swap\<close> of the slice (\<open>pdqsort_func\<close> and its helpers): an insertion
  sort for at most twelve elements, and partitions around a pivot for more. The slice is
  a list; indices are Go's \<open>int\<close>.
\<close>

definition data_Less :: "('a \<Rightarrow> 'a \<Rightarrow> bool) \<Rightarrow> 'a list \<Rightarrow> int \<Rightarrow> int \<Rightarrow> bool" where
  "data_Less lt xs i j = lt (xs ! nat i) (xs ! nat j)"

definition data_Swap :: "'a list \<Rightarrow> int \<Rightarrow> int \<Rightarrow> 'a list" where
  "data_Swap xs i j = xs[nat i := xs ! nat j, nat j := xs ! nat i]"

function insertionSort_inner :: "('a \<Rightarrow> 'a \<Rightarrow> bool) \<Rightarrow> 'a list \<Rightarrow> int \<Rightarrow> int \<Rightarrow> 'a list" where
  "insertionSort_inner lt xs a j =
     (if j > a \<and> data_Less lt xs j (j - 1)
      then insertionSort_inner lt (data_Swap xs j (j - 1)) a (j - 1)
      else xs)"
  by pat_completeness auto
termination
  by (relation "measure (\<lambda>(lt, xs, a, j). nat (j - a))") auto

declare insertionSort_inner.simps [simp del]

function insertionSort_outer ::
  "('a \<Rightarrow> 'a \<Rightarrow> bool) \<Rightarrow> 'a list \<Rightarrow> int \<Rightarrow> int \<Rightarrow> int \<Rightarrow> 'a list" where
  "insertionSort_outer lt xs a b i =
     (if i < b
      then insertionSort_outer lt (insertionSort_inner lt xs a i) a b (i + 1)
      else xs)"
  by pat_completeness auto
termination
  by (relation "measure (\<lambda>(lt, xs, a, b, i). nat (b - i))") auto

declare insertionSort_outer.simps [simp del]

definition insertionSort_func :: "('a \<Rightarrow> 'a \<Rightarrow> bool) \<Rightarrow> 'a list \<Rightarrow> int \<Rightarrow> int \<Rightarrow> 'a list" where
  "insertionSort_func lt xs a b = insertionSort_outer lt xs a b (a + 1)"

text \<open>The heap indices \<open>lo\<close>, \<open>hi\<close>, \<open>first\<close>, \<open>root\<close> and \<open>child\<close> are never negative.\<close>

function siftDown_loop ::
  "('a \<Rightarrow> 'a \<Rightarrow> bool) \<Rightarrow> 'a list \<Rightarrow> nat \<Rightarrow> nat \<Rightarrow> nat \<Rightarrow> 'a list" where
  "siftDown_loop lt xs hi first root =
     (let child = 2 * root + 1
      in if child \<ge> hi then xs
         else
           let child' =
                 (if child + 1 < hi \<and>
                     data_Less lt xs (int (first + child)) (int (first + child + 1))
                  then child + 1 else child)
           in if \<not> data_Less lt xs (int (first + root)) (int (first + child')) then xs
              else siftDown_loop lt
                     (data_Swap xs (int (first + root)) (int (first + child'))) hi first child')"
  by pat_completeness auto
termination
  by (relation "measure (\<lambda>(lt, xs, hi, first, root). hi - root)") (auto simp: Let_def)

declare siftDown_loop.simps [simp del]

definition siftDown_func ::
  "('a \<Rightarrow> 'a \<Rightarrow> bool) \<Rightarrow> 'a list \<Rightarrow> nat \<Rightarrow> nat \<Rightarrow> nat \<Rightarrow> 'a list" where
  "siftDown_func lt xs lo hi first = siftDown_loop lt xs hi first lo"

definition heapSort_func :: "('a \<Rightarrow> 'a \<Rightarrow> bool) \<Rightarrow> 'a list \<Rightarrow> int \<Rightarrow> int \<Rightarrow> 'a list" where
  "heapSort_func lt xs a b =
     (let first = nat a; lo = 0; hi = nat (b - a);
          xs1 = fold (\<lambda>i ys. siftDown_func lt ys i hi first) (rev [0..<(hi - 1) div 2 + 1]) xs
      in fold (\<lambda>i ys. siftDown_func lt (data_Swap ys (int first) (int (first + i))) lo i first)
           (rev [0..<hi]) xs1)"

text \<open>The two inner scans of a partition: \<open>i\<close> moves up and \<open>j\<close> moves down while a test holds.\<close>

function scan_up :: "(int \<Rightarrow> bool) \<Rightarrow> int \<Rightarrow> int \<Rightarrow> int" where
  "scan_up p i j = (if i \<le> j \<and> p i then scan_up p (i + 1) j else i)"
  by pat_completeness auto
termination
  by (relation "measure (\<lambda>(p, i, j). nat (j + 1 - i))") auto

declare scan_up.simps [simp del]

function scan_down :: "(int \<Rightarrow> bool) \<Rightarrow> int \<Rightarrow> int \<Rightarrow> int" where
  "scan_down p i j = (if i \<le> j \<and> p j then scan_down p i (j - 1) else j)"
  by pat_completeness auto
termination
  by (relation "measure (\<lambda>(p, i, j). nat (j + 1 - i))") auto

declare scan_down.simps [simp del]

lemma scan_up_ge: "i \<le> scan_up p i j"
  by (induction p i j rule: scan_up.induct) (subst scan_up.simps, auto)

lemma scan_down_le: "scan_down p i j \<le> j"
  by (induction p i j rule: scan_down.induct) (subst scan_down.simps, auto)

function partition_loop ::
  "('a \<Rightarrow> 'a \<Rightarrow> bool) \<Rightarrow> 'a list \<Rightarrow> int \<Rightarrow> int \<Rightarrow> int \<Rightarrow> 'a list \<times> int" where
  "partition_loop lt xs a i j =
     (let i1 = scan_up (\<lambda>k. data_Less lt xs k a) i j;
          j1 = scan_down (\<lambda>k. \<not> data_Less lt xs k a) i1 j
      in if i1 > j1 then (xs, j1)
         else partition_loop lt (data_Swap xs i1 j1) a (i1 + 1) (j1 - 1))"
  by pat_completeness auto
termination
proof (relation "measure (\<lambda>(lt, xs, a, i, j). nat (j + 1 - i))", goal_cases)
  case 1
  show ?case by simp
next
  case (2 lt xs a i j i1 j1)
  have "i \<le> i1" using 2(1) by (simp add: scan_up_ge)
  moreover have "j1 \<le> j" using 2(2) by (simp add: scan_down_le)
  ultimately show ?case using 2(3) by simp
qed

declare partition_loop.simps [simp del]

definition partition_func ::
  "('a \<Rightarrow> 'a \<Rightarrow> bool) \<Rightarrow> 'a list \<Rightarrow> int \<Rightarrow> int \<Rightarrow> int \<Rightarrow> 'a list \<times> int \<times> bool" where
  "partition_func lt xs a b pivot =
     (let xs0 = data_Swap xs a pivot;
          i1 = scan_up (\<lambda>k. data_Less lt xs0 k a) (a + 1) (b - 1);
          j1 = scan_down (\<lambda>k. \<not> data_Less lt xs0 k a) i1 (b - 1)
      in if i1 > j1 then (data_Swap xs0 j1 a, j1, True)
         else
           (case partition_loop lt (data_Swap xs0 i1 j1) a (i1 + 1) (j1 - 1) of
              (xs2, j2) \<Rightarrow> (data_Swap xs2 j2 a, j2, False)))"

function partitionEqual_loop ::
  "('a \<Rightarrow> 'a \<Rightarrow> bool) \<Rightarrow> 'a list \<Rightarrow> int \<Rightarrow> int \<Rightarrow> int \<Rightarrow> 'a list \<times> int" where
  "partitionEqual_loop lt xs a i j =
     (let i1 = scan_up (\<lambda>k. \<not> data_Less lt xs a k) i j;
          j1 = scan_down (\<lambda>k. data_Less lt xs a k) i1 j
      in if i1 > j1 then (xs, i1)
         else partitionEqual_loop lt (data_Swap xs i1 j1) a (i1 + 1) (j1 - 1))"
  by pat_completeness auto
termination
proof (relation "measure (\<lambda>(lt, xs, a, i, j). nat (j + 1 - i))", goal_cases)
  case 1
  show ?case by simp
next
  case (2 lt xs a i j i1 j1)
  have "i \<le> i1" using 2(1) by (simp add: scan_up_ge)
  moreover have "j1 \<le> j" using 2(2) by (simp add: scan_down_le)
  ultimately show ?case using 2(3) by simp
qed

declare partitionEqual_loop.simps [simp del]

definition partitionEqual_func ::
  "('a \<Rightarrow> 'a \<Rightarrow> bool) \<Rightarrow> 'a list \<Rightarrow> int \<Rightarrow> int \<Rightarrow> int \<Rightarrow> 'a list \<times> int" where
  "partitionEqual_func lt xs a b pivot =
     partitionEqual_loop lt (data_Swap xs a pivot) a (a + 1) (b - 1)"

function shift_left :: "('a \<Rightarrow> 'a \<Rightarrow> bool) \<Rightarrow> 'a list \<Rightarrow> int \<Rightarrow> 'a list" where
  "shift_left lt xs j =
     (if j \<ge> 1
      then (if \<not> data_Less lt xs j (j - 1) then xs
            else shift_left lt (data_Swap xs j (j - 1)) (j - 1))
      else xs)"
  by pat_completeness auto
termination
  by (relation "measure (\<lambda>(lt, xs, j). nat j)") auto

declare shift_left.simps [simp del]

function shift_right :: "('a \<Rightarrow> 'a \<Rightarrow> bool) \<Rightarrow> 'a list \<Rightarrow> int \<Rightarrow> int \<Rightarrow> 'a list" where
  "shift_right lt xs b j =
     (if j < b
      then (if \<not> data_Less lt xs j (j - 1) then xs
            else shift_right lt (data_Swap xs j (j - 1)) b (j + 1))
      else xs)"
  by pat_completeness auto
termination
  by (relation "measure (\<lambda>(lt, xs, b, j). nat (b - j))") auto

declare shift_right.simps [simp del]

text \<open>\<open>partialInsertionSort_func\<close>: at most \<open>maxSteps = 5\<close> rounds; \<open>shortestShifting = 50\<close>.\<close>

fun partialInsertionSort_steps ::
  "nat \<Rightarrow> ('a \<Rightarrow> 'a \<Rightarrow> bool) \<Rightarrow> 'a list \<Rightarrow> int \<Rightarrow> int \<Rightarrow> int \<Rightarrow> 'a list \<times> bool" where
  "partialInsertionSort_steps 0 lt xs a b i = (xs, False)"
| "partialInsertionSort_steps (Suc steps) lt xs a b i =
     (let i1 = scan_up (\<lambda>k. \<not> data_Less lt xs k (k - 1)) i (b - 1)
      in if i1 = b then (xs, True)
         else if b - a < 50 then (xs, False)
         else
           let xs1 = data_Swap xs i1 (i1 - 1);
               xs2 = (if i1 - a \<ge> 2 then shift_left lt xs1 (i1 - 1) else xs1);
               xs3 = (if b - i1 \<ge> 2 then shift_right lt xs2 b (i1 + 1) else xs2)
           in partialInsertionSort_steps steps lt xs3 a b i1)"

definition partialInsertionSort_func ::
  "('a \<Rightarrow> 'a \<Rightarrow> bool) \<Rightarrow> 'a list \<Rightarrow> int \<Rightarrow> int \<Rightarrow> 'a list \<times> bool" where
  "partialInsertionSort_func lt xs a b = partialInsertionSort_steps 5 lt xs a b (a + 1)"

fun bits_Len :: "nat \<Rightarrow> nat" where
  "bits_Len n = (if n = 0 then 0 else Suc (bits_Len (n div 2)))"

declare bits_Len.simps [simp del]

text \<open>
  \<open>breakPatterns_func\<close> swaps three elements around the middle of the range with elements
  at pseudo-random places; the generator is the 64-bit xorshift with the shifts 13, 7
  and 17, seeded with the length of the range.
\<close>

definition xorshift_Next :: "64 word \<Rightarrow> 64 word" where
  "xorshift_Next r =
     (let r1 = r XOR push_bit 13 r;
          r2 = r1 XOR drop_bit 7 r1
      in r2 XOR push_bit 17 r2)"

fun breakPatterns_swaps ::
  "nat \<Rightarrow> 'a list \<Rightarrow> int \<Rightarrow> int \<Rightarrow> int \<Rightarrow> 64 word \<Rightarrow> 64 word \<Rightarrow> int \<Rightarrow> 'a list" where
  "breakPatterns_swaps 0 xs a len idx modulus random i = xs"
| "breakPatterns_swaps (Suc k) xs a len idx modulus random i =
     (let random' = xorshift_Next random;
          other = uint (random' AND (modulus - 1));
          other' = (if other \<ge> len then other - len else other)
      in breakPatterns_swaps k (data_Swap xs (idx - 1 + i) (a + other')) a len idx modulus random'
           (i + 1))"

definition breakPatterns_func :: "'a list \<Rightarrow> int \<Rightarrow> int \<Rightarrow> 'a list" where
  "breakPatterns_func xs a b =
     (let len = b - a
      in if len \<ge> 8
         then breakPatterns_swaps 3 xs a len (a + (len div 4) * 2)
                (push_bit (bits_Len (nat len)) 1) (word_of_int len) 0
         else xs)"

datatype sortedHint = unknownHint | increasingHint | decreasingHint

definition order2_func ::
  "('a \<Rightarrow> 'a \<Rightarrow> bool) \<Rightarrow> 'a list \<Rightarrow> int \<Rightarrow> int \<Rightarrow> nat \<Rightarrow> int \<times> int \<times> nat" where
  "order2_func lt xs a b swaps =
     (if data_Less lt xs b a then (b, a, swaps + 1) else (a, b, swaps))"

definition median_func ::
  "('a \<Rightarrow> 'a \<Rightarrow> bool) \<Rightarrow> 'a list \<Rightarrow> int \<Rightarrow> int \<Rightarrow> int \<Rightarrow> nat \<Rightarrow> int \<times> nat" where
  "median_func lt xs a b c swaps =
     (case order2_func lt xs a b swaps of
        (a1, b1, s1) \<Rightarrow>
          (case order2_func lt xs b1 c s1 of
             (b2, c2, s2) \<Rightarrow>
               (case order2_func lt xs a1 b2 s2 of
                  (a3, b3, s3) \<Rightarrow> (b3, s3))))"

definition medianAdjacent_func ::
  "('a \<Rightarrow> 'a \<Rightarrow> bool) \<Rightarrow> 'a list \<Rightarrow> int \<Rightarrow> nat \<Rightarrow> int \<times> nat" where
  "medianAdjacent_func lt xs a swaps = median_func lt xs (a - 1) a (a + 1) swaps"

definition choosePivot_func ::
  "('a \<Rightarrow> 'a \<Rightarrow> bool) \<Rightarrow> 'a list \<Rightarrow> int \<Rightarrow> int \<Rightarrow> int \<times> sortedHint" where
  "choosePivot_func lt xs a b =
     (let l = b - a;
          i = a + l div 4 * 1;
          j = a + l div 4 * 2;
          k = a + l div 4 * 3;
          (j', swaps) =
            (if l \<ge> 8
             then
               (if l \<ge> 50
                then
                  (case medianAdjacent_func lt xs i 0 of
                     (i1, s1) \<Rightarrow>
                       (case medianAdjacent_func lt xs j s1 of
                          (j1, s2) \<Rightarrow>
                            (case medianAdjacent_func lt xs k s2 of
                               (k1, s3) \<Rightarrow> median_func lt xs i1 j1 k1 s3)))
                else median_func lt xs i j k 0)
             else (j, 0))
      in if swaps = 0 then (j', increasingHint)
         else if swaps = 12 then (j', decreasingHint)
         else (j', unknownHint))"

function reverseRange_loop :: "'a list \<Rightarrow> int \<Rightarrow> int \<Rightarrow> 'a list" where
  "reverseRange_loop xs i j =
     (if i < j then reverseRange_loop (data_Swap xs i j) (i + 1) (j - 1) else xs)"
  by pat_completeness auto
termination
  by (relation "measure (\<lambda>(xs, i, j). nat (j - i))") auto

declare reverseRange_loop.simps [simp del]

definition reverseRange_func :: "'a list \<Rightarrow> int \<Rightarrow> int \<Rightarrow> 'a list" where
  "reverseRange_func xs a b = reverseRange_loop xs a (b - 1)"

text \<open>
  \<open>pdqsort_func\<close>: one equation is one round of its loop, \<open>wasBalanced\<close> and
  \<open>wasPartitioned\<close> are the loop's variables. The first argument bounds the number of
  rounds and nested calls; \<open>None\<close> means that the bound was too small.
\<close>

fun pdqsort_loop ::
  "nat \<Rightarrow> ('a \<Rightarrow> 'a \<Rightarrow> bool) \<Rightarrow> 'a list \<Rightarrow> int \<Rightarrow> int \<Rightarrow> nat \<Rightarrow> bool \<Rightarrow> bool \<Rightarrow> 'a list option" where
  "pdqsort_loop 0 lt xs a b limit wasBalanced wasPartitioned = None"
| "pdqsort_loop (Suc fuel) lt xs a b limit wasBalanced wasPartitioned =
     (let len = b - a
      in if len \<le> 12 then Some (insertionSort_func lt xs a b)
         else if limit = 0 then Some (heapSort_func lt xs a b)
         else
           let xs1 = (if \<not> wasBalanced then breakPatterns_func xs a b else xs);
               limit1 = (if \<not> wasBalanced then limit - 1 else limit);
               (pivot0, hint0) = choosePivot_func lt xs1 a b;
               xs2 = (if hint0 = decreasingHint then reverseRange_func xs1 a b else xs1);
               pivot = (if hint0 = decreasingHint then (b - 1) - (pivot0 - a) else pivot0);
               hint = (if hint0 = decreasingHint then increasingHint else hint0);
               (xs3, isSorted) =
                 (if wasBalanced \<and> wasPartitioned \<and> hint = increasingHint
                  then partialInsertionSort_func lt xs2 a b
                  else (xs2, False))
           in if isSorted then Some xs3
              else if a > 0 \<and> \<not> data_Less lt xs3 (a - 1) pivot
              then
                (case partitionEqual_func lt xs3 a b pivot of
                   (xs4, mid) \<Rightarrow>
                     pdqsort_loop fuel lt xs4 mid b limit1 wasBalanced wasPartitioned)
              else
                (case partition_func lt xs3 a b pivot of
                   (xs4, mid, alreadyPartitioned) \<Rightarrow>
                     let leftLen = mid - a; rightLen = b - mid; balanceThreshold = len div 8
                     in if leftLen < rightLen
                        then
                          (case pdqsort_loop fuel lt xs4 a mid limit1 True True of
                             None \<Rightarrow> None
                           | Some xs5 \<Rightarrow>
                               pdqsort_loop fuel lt xs5 (mid + 1) b limit1
                                 (leftLen \<ge> balanceThreshold) alreadyPartitioned)
                        else
                          (case pdqsort_loop fuel lt xs4 (mid + 1) b limit1 True True of
                             None \<Rightarrow> None
                           | Some xs5 \<Rightarrow>
                               pdqsort_loop fuel lt xs5 a mid limit1
                                 (rightLen \<ge> balanceThreshold) alreadyPartitioned)))"

definition go_sort_Slice :: "('a \<Rightarrow> 'a \<Rightarrow> bool) \<Rightarrow> 'a list \<Rightarrow> 'a list option" where
  "go_sort_Slice lt xs =
     pdqsort_loop (length xs + 1) lt xs 0 (int (length xs)) (bits_Len (length xs)) True True"

section \<open>The run of main that switches to a session\<close>


section \<open>Concrete surroundings for the examples\<close>

definition example_Base :: "string \<Rightarrow> string" where
  "example_Base p = last (strings_Split (CHR ''/'') p)"

definition example_Dir :: "string \<Rightarrow> string" where
  "example_Dir p =
     (let d = take (length p - length (example_Base p) - 1) p
      in if d = '''' then ''/'' else d)"

text \<open>
  A user inside tmux whose calls all succeed; \<open>sort.Slice\<close> is the one of the Go library.
\<close>

definition example_world :: world where
  "example_world =
     \<lparr>Home = ''/home/u'',
      ConfigPath = ''/home/u/.config/pr.json'',
      os_Getwd = Inr ''/home/u/project'',
      isDir = (\<lambda>p. p = ''/home/u'' \<or> p = ''/home/u/project''),
      os_Mkdir = (\<lambda>p. None),
      os_ReadDir = (\<lambda>p. Inr [''project'']),
      os_Getenv = (\<lambda>k. if k = ''TMUX'' then ''/tmp/tmux-1000/default,4242,0'' else ''''),
      exec_LookPath = (\<lambda>f. Inr (''/usr/bin/'' @ f)),
      syscall_Exec = (\<lambda>p argv. None),
      tmux = (\<lambda>args. \<lparr>out = '''', err = None\<rparr>),
      os_WriteFile = (\<lambda>p bs. None),
      json_MarshalIndent = (\<lambda>ss. Inr ''{}''),
      filepath_Base = example_Base,
      filepath_Dir = example_Dir,
      filepath_Join = (\<lambda>a b. a @ ''/'' @ b),
      sort_Slice = (\<lambda>lt xs. case go_sort_Slice lt xs of Some ys \<Rightarrow> ys | None \<Rightarrow> xs)\<rparr>"


definition example_session :: "string \<Rightarrow> string \<Rightarrow> int \<Rightarrow> TmuxSession" where
  "example_session name path activity =
     \<lparr>ts_Name = name, ts_Attached = False, ts_LastActivity = time_Unix activity,
      ts_WindowsCount = 1, ts_Path = path\<rparr>"

definition example_favourite :: "string \<Rightarrow> string \<Rightarrow> string list \<Rightarrow> FavouriteSession" where
  "example_favourite name path aliases =
     \<lparr>fs_Name = name, fs_Path = path, fs_Cmd = '''', fs_Aliases = aliases, fs_Env = []\<rparr>"

definition example_proc :: "FavouriteSession list \<Rightarrow> proc" where
  "example_proc favs = \<lparr>Config = \<lparr>Sessions = favs, changed = False\<rparr>, events = []\<rparr>"

definition example_store :: FavouritesConfig where
  "example_store =
     \<lparr>Sessions = [example_favourite ''a'' ''/home/u/a'' [],
                  example_favourite ''b'' ''/home/u/b'' [''bb'']],
      changed = False\<rparr>"

definition example_dirty_proc :: proc where
  "example_dirty_proc =
     \<lparr>Config = \<lparr>Sessions = [example_favourite ''c'' ''/home/u/c'' [],
                            example_favourite ''a'' ''/home/u/a'' []],
                changed = True\<rparr>,
      events = []\<rparr>"



text \<open>Two live sessions share the prefix \<open>web\<close>.\<close>

definition web_sessions :: "TmuxSession list" where
  "web_sessions =
     [example_session ''web1'' ''/home/u/web1'' 1700000020,
      example_session ''api'' ''/home/u/api'' 1700000010,
      example_session ''web2'' ''/srv/web2'' 1700000030]"

text \<open>A favourite named \<open>project\<close> with the alias \<open>p\<close>, behind another favourite.\<close>

definition project_favourite :: FavouriteSession where
  "project_favourite =
     \<lparr>fs_Name = ''project'', fs_Path = ''/home/u/project'', fs_Cmd = ''vim'',
      fs_Aliases = [''pr'', ''p''], fs_Env = [(''STAGE'', ''dev'')]\<rparr>"

definition project_proc :: proc where
  "project_proc =
     example_proc [example_favourite ''other'' ''/home/u/other'' [''o''], project_favourite]"

text \<open>
  A live session \<open>project\<close> bound to \<open>/srv/project\<close>, and a favourite of the same name
  for another directory, reached through its alias \<open>x\<close>.
\<close>

definition colliding_sessions :: "TmuxSession list" where
  "colliding_sessions = [example_session ''project'' ''/srv/project'' 1700000000]"

definition colliding_proc :: proc where
  "colliding_proc = example_proc [example_favourite ''project'' ''/home/u/project'' [''x'']]"

text \<open>Four live sessions, two pairs of which share their time of last activity.\<close>

definition tied_sessions :: "TmuxSession list" where
  "tied_sessions =
     [example_session ''a'' ''/home/u/a'' 1700000010,
      example_session ''b'' ''/home/u/b'' 1700000020,
      example_session ''c'' ''/home/u/c'' 1700000010,
      example_session ''d'' ''/home/u/d'' 1700000020]"

text \<open>
  Thirteen live sessions in listing order; \<open>s6\<close> was active last, the twelve others share
  one time of last activity.
\<close>

definition thirteen_sessions :: "TmuxSession list" where
  "thirteen_sessions =
     [example_session ''s0'' ''/home/u/s0'' 1700000000,
      example_session ''s1'' ''/home/u/s1'' 1700000000,
      example_session ''s2'' ''/home/u/s2'' 1700000000,
      example_session ''s3'' ''/home/u/s3'' 1700000000,
      example_session ''s4'' ''/home/u/s4'' 1700000000,
      example_session ''s5'' ''/home/u/s5'' 1700000000,
      example_session ''s6'' ''/home/u/s6'' 1700000060,
      example_session ''s7'' ''/home/u/s7'' 1700000000,
      example_session ''s8'' ''/home/u/s8'' 1700000000,
      example_session ''s9'' ''/home/u/s9'' 1700000000,
      example_session ''s10'' ''/home/u/s10'' 1700000000,
      example_session ''s11'' ''/home/u/s11'' 1700000000,
      example_session ''s12'' ''/home/u/s12'' 1700000000]"

section \<open>Insertion sort as a fold\<close>

text \<open>
  Inserting \<open>x\<close> behind a sorted run that is held in reverse: \<open>x\<close> passes the elements it
  is less than and stops at the first one it is not less than.
\<close>

fun insert_behind :: "('a \<Rightarrow> 'a \<Rightarrow> bool) \<Rightarrow> 'a \<Rightarrow> 'a list \<Rightarrow> 'a list" where
  "insert_behind lt x [] = [x]"
| "insert_behind lt x (p # rps) =
     (if lt x p then p # insert_behind lt x rps else x # p # rps)"

section \<open>Facts about the search loop\<close>

lemma Touch_found_i_none:
  "name \<notin> fs_Name ` set xs \<Longrightarrow> Touch_found_i name xs i = -1"
  by (induction xs arbitrary: i) auto

lemma Touch_found_i_split:
  "\<forall>x\<in>set pre. fs_Name x \<noteq> name \<Longrightarrow> fs_Name r = name \<Longrightarrow>
     Touch_found_i name (pre @ r # post) i = i + int (length pre)"
  by (induction pre arbitrary: i) auto

lemma Touch_found_i_hd:
  "xs \<noteq> [] \<Longrightarrow> fs_Name (hd xs) = name \<Longrightarrow> Touch_found_i name xs 0 = 0"
  by (cases xs) auto

lemma first_named_split:
  assumes "name \<in> fs_Name ` set xs"
  shows "\<exists>pre r post. xs = pre @ r # post \<and> fs_Name r = name \<and> (\<forall>x\<in>set pre. fs_Name x \<noteq> name)"
proof -
  from assms have "\<exists>x\<in>set xs. fs_Name x = name" by auto
  from split_list_first_prop [OF this] show ?thesis by blast
qed

lemma Touch_not_found:
  assumes "name \<notin> fs_Name ` set (Sessions fc)" and "\<not> prefix ''/tmp/'' path"
  shows "Touch name path fc =
     fc\<lparr>Sessions :=
          \<lparr>fs_Name = name, fs_Path = path, fs_Cmd = '''', fs_Aliases = [], fs_Env = []\<rparr>
            # Sessions fc,
        changed := True\<rparr>"
proof -
  from assms(1) have "Touch_found_i name (Sessions fc) 0 = -1"
    by (rule Touch_found_i_none)
  with assms(2) show ?thesis by (simp add: Touch_def Let_def)
qed

lemma Touch_found:
  assumes sp: "Sessions fc = pre @ r # post" and r: "fs_Name r = name"
    and pre: "\<forall>x\<in>set pre. fs_Name x \<noteq> name"
    and np: "\<not> prefix ''/tmp/'' path"
  shows "Touch name path fc =
     (if pre = [] then fc else fc\<lparr>Sessions := r # pre @ post, changed := True\<rparr>)"
proof -
  have fi: "Touch_found_i name (Sessions fc) 0 = int (length pre)"
    using Touch_found_i_split [OF pre r, of post 0] sp by simp
  show ?thesis
  proof (cases "pre = []")
    case True
    with fi np show ?thesis by (simp add: Touch_def Let_def)
  next
    case False
    then have pos: "int (length pre) > 0" by simp
    have n: "Sessions fc ! nat (int (length pre)) = r"
      by (simp add: sp)
    have t: "take (nat (int (length pre))) (Sessions fc) = pre"
      by (simp add: sp)
    have d: "drop (nat (int (length pre)) + 1) (Sessions fc) = post"
      by (simp add: sp)
    from False pos np show ?thesis
      unfolding Touch_def Let_def fi n t d by simp
  qed
qed

lemma Touch_sessions_hd:
  assumes np: "\<not> prefix ''/tmp/'' path"
  shows "Sessions (Touch name path fc) \<noteq> [] \<and>
     fs_Name (hd (Sessions (Touch name path fc))) = name"
proof (cases "name \<in> fs_Name ` set (Sessions fc)")
  case False
  then show ?thesis by (simp add: Touch_not_found [OF _ np])
next
  case True
  then obtain pre r post where
    sp: "Sessions fc = pre @ r # post" and r: "fs_Name r = name"
    and pre: "\<forall>x\<in>set pre. fs_Name x \<noteq> name"
    using first_named_split by blast
  show ?thesis
    using sp r by (simp add: Touch_found [OF sp r pre np])
qed

section \<open>Facts about resolution\<close>

lemma fold_update_None:
  "fold (\<lambda>s m. m(ts_Name s \<mapsto> s)) xs m k = None \<longleftrightarrow> m k = None \<and> k \<notin> ts_Name ` set xs"
  by (induction xs arbitrary: m) auto

lemma sessionsByName_None:
  "sessionsByName sessions k = None \<longleftrightarrow> k \<notin> ts_Name ` set sessions"
  by (simp add: sessionsByName_def fold_update_None)

lemma live_prefix_loop_snoc:
  "live_prefix_loop sid (xs @ [x]) t =
     (if prefix sid (ts_Name x) then of_live x (live_prefix_loop sid xs t)
      else live_prefix_loop sid xs t)"
  by (simp add: live_prefix_loop_def)

lemma live_prefix_loop_last:
  "live_prefix_loop sid xs t =
     (if filter (\<lambda>s. prefix sid (ts_Name s)) xs = [] then t
      else of_live (last (filter (\<lambda>s. prefix sid (ts_Name s)) xs)) t)"
proof (induction xs rule: rev_induct)
  case Nil
  show ?case by (simp add: live_prefix_loop_def)
next
  case (snoc x xs)
  show ?case
    by (simp add: live_prefix_loop_snoc snoc.IH of_live_def)
qed

lemma sessionName_no_target: "sessionName no_target = []"
  by (simp add: no_target_def)

lemma sessionName_of_live: "sessionName (of_live s t) = ts_Name s"
  by (simp add: of_live_def)

lemma sessionName_of_favourite: "sessionName (of_favourite fs t) = fs_Name fs"
  by (simp add: of_favourite_def)

lemma resolve_home_named:
  "sessionName t \<noteq> '''' \<Longrightarrow> resolve_home w sid t = Returns t"
  by (simp add: resolve_home_def Let_def)

lemma alias_loop_no_match:
  "sid \<notin> set as \<Longrightarrow> alias_loop sid fs as t = t"
  by (induction as) auto

lemma alias_loop_match:
  "sid \<in> set as \<Longrightarrow> alias_loop sid fs as t = of_favourite fs t"
  by (induction as) auto

lemma favourite_exact_loop_skip:
  assumes "\<forall>f\<in>set pre. fs_Name f \<noteq> sid \<and> sid \<notin> set (fs_Aliases f)"
    and "sessionName t = ''''"
  shows "favourite_exact_loop sid (pre @ rest) t = favourite_exact_loop sid rest t"
  using assms by (induction pre) (auto simp: alias_loop_no_match Let_def)

lemma count_dashes: "countRepeatedChars (replicate N (CHR ''-'')) (CHR ''-'') = int N"
  by (simp add: countRepeatedChars_def list_all_iff)

lemma dash_token_resolution:
  assumes "mset (sort_Slice w activity_less sessions) = mset sessions"
    and "\<forall>s\<in>set sessions. ts_Name s \<noteq> ''''"
    and "1 \<le> N"
  shows "ChangeSession_resolve w sessions (replicate N (CHR ''-'')) allowCreateDir st =
           (if length sessions < 2
            then (Fatal ''cannot switch to a previous session (too few sessions)'', st)
            else (Returns
                    \<lparr>sessionName =
                       ts_Name (sort_Slice w activity_less sessions ! min N (length sessions - 1)),
                     sessionDirPath =
                       ts_Path (sort_Slice w activity_less sessions ! min N (length sessions - 1)),
                     sessionStartCmd = '''', sessionEnv = []\<rparr>, st))"
proof -
  let ?tok = "replicate N (CHR ''-'')"
  let ?sorted = "sort_Slice w activity_less sessions"
  from assms(3) obtain M where N: "N = Suc M" by (cases N) auto
  have nd: "?tok \<noteq> ''.''" by (simp add: N)
  have ns: "\<not> prefix ''/'' ?tok" by (simp add: N)
  have cnt: "countRepeatedChars ?tok (CHR ''-'') = int N" by (rule count_dashes)
  have len: "length ?sorted = length sessions"
    using assms(1) by (metis size_mset)
  have sets: "set ?sorted = set sessions"
    using assms(1) by (metis set_mset_mset)
  show ?thesis
  proof (cases "length sessions < 2")
    case True
    with nd ns cnt assms(3) show ?thesis
      by (simp add: ChangeSession_resolve_def resolve_previous_def)
  next
    case False
    define n where "n = min N (length sessions - 1)"
    have idx: "nat (if int N \<ge> int (length sessions) then int (length sessions) - 1 else int N) = n"
      using False by (auto simp: min_def n_def)
    have lt: "n < length ?sorted" using False len by (simp add: n_def)
    then have "?sorted ! n \<in> set sessions" using sets nth_mem by blast
    with assms(2) have name: "ts_Name (?sorted ! n) \<noteq> ''''" by blast
    have prev: "resolve_previous w sessions (int N) = Returns (of_live (?sorted ! n) no_target)"
      using False lt unfolding resolve_previous_def Let_def idx by simp
    have "sessionName (of_live (?sorted ! n) no_target) \<noteq> ''''"
      using name by (simp add: of_live_def)
    then have home: "resolve_home w ?tok (of_live (?sorted ! n) no_target) =
                       Returns (of_live (?sorted ! n) no_target)"
      by (rule resolve_home_named)
    have "ChangeSession_resolve w sessions ?tok allowCreateDir st =
            (Returns (of_live (?sorted ! n) no_target), st)"
      using nd ns assms(3) by (simp add: ChangeSession_resolve_def cnt prev home)
    with False show ?thesis by (simp add: of_live_def no_target_def n_def)
  qed
qed

section \<open>Facts about the insertion sort of sort.Slice\<close>

lemma length_insert_behind: "length (insert_behind lt x rps) = Suc (length rps)"
  by (induction rps) auto

lemma insertionSort_inner_insert:
  "j = int (length ps) \<Longrightarrow>
     insertionSort_inner lt (ps @ x # qs) 0 j = rev (insert_behind lt x (rev ps)) @ qs"
proof (induction ps arbitrary: qs j rule: rev_induct)
  case Nil
  then show ?case by (subst insertionSort_inner.simps) simp
next
  case (snoc p ps)
  have jpos: "j > 0" and nj: "nat j = Suc (length ps)" and nj1: "nat (j - 1) = length ps"
    and j1: "j - 1 = int (length ps)"
    using snoc.prems by simp_all
  have less: "data_Less lt (ps @ p # x # qs) j (j - 1) = lt x p"
    unfolding data_Less_def nj nj1 by (simp add: nth_append)
  have swap: "data_Swap (ps @ p # x # qs) j (j - 1) = ps @ x # p # qs"
    unfolding data_Swap_def nj nj1 by (simp add: nth_append list_update_append)
  have step: "insertionSort_inner lt (ps @ p # x # qs) 0 j =
      (if lt x p then insertionSort_inner lt (ps @ x # p # qs) 0 (j - 1) else ps @ p # x # qs)"
    by (subst insertionSort_inner.simps) (simp add: jpos less swap)
  have "insertionSort_inner lt (ps @ x # p # qs) 0 (j - 1) =
          rev (insert_behind lt x (rev ps)) @ p # qs"
    using j1 by (rule snoc.IH)
  with step show ?case by simp
qed

lemma insertionSort_outer_fold:
  "i = int (length ps) \<Longrightarrow> b = int (length ps + length qs) \<Longrightarrow>
     insertionSort_outer lt (ps @ qs) 0 b i = rev (fold (insert_behind lt) qs (rev ps))"
proof (induction qs arbitrary: ps i)
  case Nil
  then show ?case by (subst insertionSort_outer.simps) simp
next
  case (Cons x qs)
  let ?ps' = "rev (insert_behind lt x (rev ps))"
  have lt: "i < b" using Cons.prems by simp
  have i': "i + 1 = int (length ?ps')"
    using Cons.prems by (simp add: length_insert_behind)
  have b': "b = int (length ?ps' + length qs)"
    using Cons.prems by (simp add: length_insert_behind)
  have inner: "insertionSort_inner lt (ps @ x # qs) 0 i = ?ps' @ qs"
    using Cons.prems(1) by (rule insertionSort_inner_insert)
  have "insertionSort_outer lt (ps @ x # qs) 0 b i =
          insertionSort_outer lt (?ps' @ qs) 0 b (i + 1)"
    by (subst insertionSort_outer.simps) (simp add: lt inner)
  also have "\<dots> = rev (fold (insert_behind lt) qs (rev ?ps'))"
    using i' b' by (rule Cons.IH)
  finally show ?case by simp
qed

lemma insertionSort_func_fold:
  "insertionSort_func lt xs 0 (int (length xs)) = rev (fold (insert_behind lt) xs [])"
proof (cases xs)
  case Nil
  then show ?thesis
    unfolding insertionSort_func_def by (subst insertionSort_outer.simps) simp
next
  case (Cons x qs)
  have "insertionSort_outer lt ([x] @ qs) 0 (int (length xs)) (0 + 1) =
          rev (fold (insert_behind lt) qs (rev [x]))"
    by (rule insertionSort_outer_fold) (simp_all add: Cons)
  then show ?thesis by (simp add: insertionSort_func_def Cons)
qed

lemma go_sort_Slice_short:
  "length xs \<le> 12 \<Longrightarrow> go_sort_Slice lt xs = Some (rev (fold (insert_behind lt) xs []))"
  by (simp add: go_sort_Slice_def insertionSort_func_fold)

lemma set_insert_behind: "set (insert_behind lt x rps) = insert x (set rps)"
  by (induction rps) auto

lemma mset_insert_behind: "mset (insert_behind lt x rps) = add_mset x (mset rps)"
  by (induction rps) auto

lemma mset_fold_insert_behind:
  "mset (fold (insert_behind lt) xs acc) = mset xs + mset acc"
  by (induction xs arbitrary: acc) (auto simp: mset_insert_behind)

lemma descending_insert_behind:
  "sorted_wrt (\<lambda>a b. f b \<le> f a) rps \<Longrightarrow>
     sorted_wrt (\<lambda>a b. f b \<le> f a) (insert_behind (\<lambda>a b. f a < f b) x rps)"
  for f :: "'a \<Rightarrow> 'k::linorder"
  by (induction rps) (auto simp: set_insert_behind)

lemma descending_fold_insert_behind:
  "sorted_wrt (\<lambda>a b. f b \<le> f a) acc \<Longrightarrow>
     sorted_wrt (\<lambda>a b. f b \<le> f a) (fold (insert_behind (\<lambda>a b. f a < f b)) xs acc)"
  for f :: "'a \<Rightarrow> 'k::linorder"
  by (induction xs arbitrary: acc) (auto simp: descending_insert_behind)

lemma filter_insert_behind:
  "filter (\<lambda>y. k = f y) (insert_behind (\<lambda>a b. f a < f b) x rps) =
     (if k = f x then [x] else []) @ filter (\<lambda>y. k = f y) rps"
  for f :: "'a \<Rightarrow> 'k::linorder"
  by (induction rps) auto

lemma filter_fold_insert_behind:
  "filter (\<lambda>y. k = f y) (fold (insert_behind (\<lambda>a b. f a < f b)) xs acc) =
     rev (filter (\<lambda>y. k = f y) xs) @ filter (\<lambda>y. k = f y) acc"
  for f :: "'a \<Rightarrow> 'k::linorder"
  by (induction xs arbitrary: acc) (simp_all add: filter_insert_behind)

lemma insertion_is_stable_sort:
  "rev (fold (insert_behind (\<lambda>a b. f a < f b)) xs []) = sort_key f xs"
  for f :: "'a \<Rightarrow> 'k::linorder"
proof (rule properties_for_sort_key [symmetric])
  show "mset (rev (fold (insert_behind (\<lambda>a b. f a < f b)) xs [])) = mset xs"
    by (simp add: mset_fold_insert_behind)
  show "filter (\<lambda>y. f k = f y) (rev (fold (insert_behind (\<lambda>a b. f a < f b)) xs [])) =
          filter (\<lambda>y. f k = f y) xs" for k
    by (simp add: rev_filter [symmetric] filter_fold_insert_behind)
  have "sorted_wrt (\<lambda>a b. f b \<le> f a) (fold (insert_behind (\<lambda>a b. f a < f b)) xs [])"
    by (rule descending_fold_insert_behind) simp
  then show "sorted (map f (rev (fold (insert_behind (\<lambda>a b. f a < f b)) xs [])))"
    by (simp add: sorted_map sorted_wrt_rev)
qed

lemma activity_less_key:
  "activity_less = (\<lambda>a b. - sint (ts_LastActivity a) < - sint (ts_LastActivity b))"
  by (simp add: activity_less_def After_def fun_eq_iff)

lemma go_sort_Slice_stable_short:
  "length sessions \<le> 12 \<Longrightarrow>
     go_sort_Slice activity_less sessions =
       Some (sort_key (\<lambda>s. - sint (ts_LastActivity s)) sessions)"
proof -
  assume "length sessions \<le> 12"
  then have "go_sort_Slice activity_less sessions =
               Some (rev (fold (insert_behind activity_less) sessions []))"
    by (rule go_sort_Slice_short)
  also have "rev (fold (insert_behind activity_less) sessions []) =
               sort_key (\<lambda>s. - sint (ts_LastActivity s)) sessions"
    unfolding activity_less_key by (rule insertion_is_stable_sort)
  finally show ?thesis .
qed

section \<open>Evaluations at the examples\<close>




lemma sint_eq_iff_word: "(sint a = sint b) = (a = b)"
  by (auto intro: signed_word_eqI)

section \<open>Claims about materializing a session and the backend\<close>

text \<open>
  C1 expects the session to be created under the first free candidate name. The suffix
  loop tests the candidates \<open>sessionName + SUFFIXES[i]\<close>, but creates and switches to
  \<open>sessionName\<close> itself. Here the live session \<open>project\<close> is bound to another directory
  and \<open>project1\<close> is free: whatever the surroundings answer, the first call to tmux asks
  for a new session named \<open>project\<close>, the name that is taken.
\<close>

theorem suffixed_candidate_not_used:
  "sessionsByName colliding_sessions ''project'' =
     Some (example_session ''project'' ''/srv/project'' 1700000000) \<and>
   sessionsByName colliding_sessions ''project1'' = None \<and>
   fst (ChangeSession_resolve w colliding_sessions ''x'' False colliding_proc) =
     Returns \<lparr>sessionName = ''project'', sessionDirPath = ''/home/u/project'',
              sessionStartCmd = '''', sessionEnv = []\<rparr> \<and>
   take 1 (events (snd (ChangeSession w colliding_sessions ''x'' False colliding_proc))) =
     [TmuxExec [''new'', ''-c'', ''/home/u/project'', ''-s'', ''project'', ''-d'']]"
proof -
  have by_name: "sessionsByName colliding_sessions ''project'' =
      Some (example_session ''project'' ''/srv/project'' 1700000000)"
    and free: "sessionsByName colliding_sessions ''project1'' = None"
    by (simp_all add: sessionsByName_def colliding_sessions_def example_session_def)
  have named: "resolve_named colliding_sessions (Sessions (Config colliding_proc)) ''x'' =
      \<lparr>sessionName = ''project'', sessionDirPath = ''/home/u/project'',
       sessionStartCmd = '''', sessionEnv = []\<rparr>"
    by code_simp
  have resolved: "ChangeSession_resolve w colliding_sessions ''x'' False colliding_proc =
      (Returns \<lparr>sessionName = ''project'', sessionDirPath = ''/home/u/project'',
                sessionStartCmd = '''', sessionEnv = []\<rparr>, colliding_proc)"
    by (simp add: ChangeSession_resolve_def countRepeatedChars_def named resolve_home_def)
  have run: "take 1 (events (snd (ChangeSession w colliding_sessions ''x'' False colliding_proc))) =
      [TmuxExec [''new'', ''-c'', ''/home/u/project'', ''-s'', ''project'', ''-d'']]"
  proof -
    let ?t = "\<lparr>sessionName = ''project'', sessionDirPath = ''/home/u/project'',
               sessionStartCmd = '''', sessionEnv = []\<rparr>"
    have "ChangeSession w colliding_sessions ''x'' False colliding_proc =
            suffix_loop w (sessionsByName colliding_sessions) ?t SUFFIXES colliding_proc"
      by (simp add: ChangeSession_def resolved)
    also have "\<dots> =
        and_then
          (createSession w ''project'' ''/home/u/project'' '''' []
             (colliding_proc\<lparr>Config :=
                Touch ''project'' ''/home/u/project'' (Config colliding_proc)\<rparr>))
          (\<lambda>_ st'. switchToSession w ''project'' st')"
      by (simp add: SUFFIXES_def by_name free example_session_def)
    finally show ?thesis
      by (simp add: createSession_def create_session_args_def switchToSession_def emit_def
          colliding_proc_def example_proc_def Let_def
          split: option.split sum.split)
  qed
  from by_name free resolved run show ?thesis by simp
qed




section \<open>Claims about resolution\<close>

text \<open>
  C3, as the code has it: for a token of \<open>N \<ge> 1\<close> dashes and at most twelve live
  sessions (with non-empty names), where the \<open>sort.Slice\<close> of the Go library is an
  insertion sort, resolution orders the live sessions by descending time of last activity
  and keeps sessions with the same time in their listing order; it selects the session at
  index \<open>N\<close> of that stable order (the last one when \<open>N\<close> is not below their number), so
  the selected session is determined by the times of last activity and the listing order.
\<close>

theorem sorted_sessions_determined:
  assumes "go_sort_Slice activity_less sessions = Some (sort_Slice w activity_less sessions)"
    and "length sessions \<le> 12"
    and "\<forall>s\<in>set sessions. ts_Name s \<noteq> ''''"
    and "1 \<le> N"
  shows "sort_Slice w activity_less sessions =
           sort_key (\<lambda>s. - sint (ts_LastActivity s)) sessions \<and>
         (\<forall>k. filter (\<lambda>s. ts_LastActivity s = k) (sort_Slice w activity_less sessions) =
              filter (\<lambda>s. ts_LastActivity s = k) sessions) \<and>
         ChangeSession_resolve w sessions (replicate N (CHR ''-'')) allowCreateDir st =
           (if length sessions < 2
            then (Fatal ''cannot switch to a previous session (too few sessions)'', st)
            else (Returns
                    \<lparr>sessionName =
                       ts_Name (sort_key (\<lambda>s. - sint (ts_LastActivity s)) sessions !
                                min N (length sessions - 1)),
                     sessionDirPath =
                       ts_Path (sort_key (\<lambda>s. - sint (ts_LastActivity s)) sessions !
                                min N (length sessions - 1)),
                     sessionStartCmd = '''', sessionEnv = []\<rparr>, st))"
proof -
  let ?key = "\<lambda>s. - sint (ts_LastActivity s)"
  have "go_sort_Slice activity_less sessions = Some (sort_key ?key sessions)"
    using assms(2) by (rule go_sort_Slice_stable_short)
  with assms(1) have eq: "sort_Slice w activity_less sessions = sort_key ?key sessions"
    by simp
  have perm: "mset (sort_Slice w activity_less sessions) = mset sessions"
    by (simp add: eq)
  have stable: "filter (\<lambda>s. ts_LastActivity s = k) (sort_key ?key sessions) =
                  filter (\<lambda>s. ts_LastActivity s = k) sessions" for k
    using sort_key_stable [of ?key "- sint k" sessions] by (simp add: sint_eq_iff_word)
  from dash_token_resolution [OF perm assms(3) assms(4), of allowCreateDir st] stable
  show ?thesis
    unfolding eq by blast
qed

theorem sorted_sessions_determined_witness:
  "map ts_Name (sort_Slice example_world activity_less tied_sessions) =
     [''b'', ''d'', ''a'', ''c''] \<and>
   fst (ChangeSession_resolve example_world tied_sessions ''-'' False (example_proc [])) =
     Returns \<lparr>sessionName = ''d'', sessionDirPath = ''/home/u/d'',
              sessionStartCmd = '''', sessionEnv = []\<rparr> \<and>
   fst (ChangeSession_resolve example_world tied_sessions ''--'' False (example_proc [])) =
     Returns \<lparr>sessionName = ''a'', sessionDirPath = ''/home/u/a'',
              sessionStartCmd = '''', sessionEnv = []\<rparr>"
proof -
  have lib: "go_sort_Slice activity_less tied_sessions =
               Some (sort_Slice example_world activity_less tied_sessions)"
    by code_simp
  have short: "length tied_sessions \<le> 12"
    by (simp add: tied_sessions_def)
  have named: "\<forall>s\<in>set tied_sessions. ts_Name s \<noteq> ''''"
    by (simp add: tied_sessions_def example_session_def)
  note determined = sorted_sessions_determined [OF lib short named]
  have order: "sort_key (\<lambda>s. - sint (ts_LastActivity s)) tied_sessions =
      [example_session ''b'' ''/home/u/b'' 1700000020,
       example_session ''d'' ''/home/u/d'' 1700000020,
       example_session ''a'' ''/home/u/a'' 1700000010,
       example_session ''c'' ''/home/u/c'' 1700000010]"
    by code_simp
  have sorted: "map ts_Name (sort_Slice example_world activity_less tied_sessions) =
                  [''b'', ''d'', ''a'', ''c'']"
    using determined [of 1 False "example_proc []"]
    by (simp add: order example_session_def)
  have one: "fst (ChangeSession_resolve example_world tied_sessions ''-'' False (example_proc [])) =
     Returns \<lparr>sessionName = ''d'', sessionDirPath = ''/home/u/d'',
              sessionStartCmd = '''', sessionEnv = []\<rparr>"
    using determined [of 1 False "example_proc []"]
    by (simp add: order) (simp add: tied_sessions_def example_session_def)
  have two: "fst (ChangeSession_resolve example_world tied_sessions ''--'' False (example_proc [])) =
     Returns \<lparr>sessionName = ''a'', sessionDirPath = ''/home/u/a'',
              sessionStartCmd = '''', sessionEnv = []\<rparr>"
    using determined [of 2 False "example_proc []"]
    by (simp add: order eval_nat_numeral) (simp add: tied_sessions_def example_session_def)
  from sorted one two show ?thesis by simp
qed

text \<open>
  C3 as the specification has it fails: of thirteen live sessions, \<open>s0\<close> and \<open>s3\<close> have
  the same time of last activity and \<open>s0\<close> is listed first, but \<open>sort.Slice\<close> puts \<open>s3\<close>
  before \<open>s0\<close>, and the token \<open>-\<close> selects \<open>s3\<close> where a stable sort has \<open>s0\<close>.
\<close>

theorem unstable_sort_counterexample:
  "ts_LastActivity (thirteen_sessions ! 0) = ts_LastActivity (thirteen_sessions ! 3) \<and>
   map_option (map ts_Name) (go_sort_Slice activity_less thirteen_sessions) =
     Some [''s6'', ''s3'', ''s2'', ''s0'', ''s4'', ''s5'', ''s1'', ''s7'', ''s8'', ''s9'',
           ''s10'', ''s11'', ''s12''] \<and>
   fst (ChangeSession_resolve example_world thirteen_sessions ''-'' False (example_proc [])) =
     Returns \<lparr>sessionName = ''s3'', sessionDirPath = ''/home/u/s3'',
              sessionStartCmd = '''', sessionEnv = []\<rparr> \<and>
   map ts_Name (sort_key (\<lambda>s. - sint (ts_LastActivity s)) thirteen_sessions) =
     [''s6'', ''s0'', ''s1'', ''s2'', ''s3'', ''s4'', ''s5'', ''s7'', ''s8'', ''s9'',
      ''s10'', ''s11'', ''s12'']"
proof -
  have tie: "ts_LastActivity (thirteen_sessions ! 0) = ts_LastActivity (thirteen_sessions ! 3)"
    by (simp add: thirteen_sessions_def example_session_def)
  have go: "map_option (map ts_Name) (go_sort_Slice activity_less thirteen_sessions) =
     Some [''s6'', ''s3'', ''s2'', ''s0'', ''s4'', ''s5'', ''s1'', ''s7'', ''s8'', ''s9'',
           ''s10'', ''s11'', ''s12'']"
    by code_simp
  have sel: "fst (ChangeSession_resolve example_world thirteen_sessions ''-'' False (example_proc [])) =
     Returns \<lparr>sessionName = ''s3'', sessionDirPath = ''/home/u/s3'',
              sessionStartCmd = '''', sessionEnv = []\<rparr>"
    by code_simp
  have stable: "map ts_Name (sort_key (\<lambda>s. - sint (ts_LastActivity s)) thirteen_sessions) =
     [''s6'', ''s0'', ''s1'', ''s2'', ''s3'', ''s4'', ''s5'', ''s7'', ''s8'', ''s9'',
      ''s10'', ''s11'', ''s12'']"
    by code_simp
  from tie go sel stable show ?thesis by simp
qed



text \<open>
  C5: a token that is not \<open>.\<close>, not an absolute path, not made of dashes and not the
  name of a live session, but a prefix of the name of some live session, resolves to the
  last live session in listing order whose name it is a prefix of.
\<close>

theorem live_prefix_last_wins:
  assumes "sessionId \<noteq> ''.''" and "\<not> prefix ''/'' sessionId"
    and "countRepeatedChars sessionId (CHR ''-'') = 0"
    and "sessionId \<notin> ts_Name ` set sessions"
    and "\<exists>s\<in>set sessions. prefix sessionId (ts_Name s)"
  shows "ChangeSession_resolve w sessions sessionId allowCreateDir st =
           (Returns
              \<lparr>sessionName = ts_Name (last (filter (\<lambda>s. prefix sessionId (ts_Name s)) sessions)),
               sessionDirPath = ts_Path (last (filter (\<lambda>s. prefix sessionId (ts_Name s)) sessions)),
               sessionStartCmd = '''', sessionEnv = []\<rparr>, st)"
proof -
  let ?ms = "filter (\<lambda>s. prefix sessionId (ts_Name s)) sessions"
  from assms(5) have ne: "?ms \<noteq> []" by (auto simp: filter_empty_conv)
  then have "last ?ms \<in> set ?ms" by (rule last_in_set)
  then have mem: "last ?ms \<in> set sessions" and pre: "prefix sessionId (ts_Name (last ?ms))"
    by auto
  have name: "ts_Name (last ?ms) \<noteq> ''''"
  proof
    assume e: "ts_Name (last ?ms) = ''''"
    with pre have "sessionId = ''''" by simp
    with e mem assms(4) show False by force
  qed
  have none: "sessionsByName sessions sessionId = None"
    using assms(4) by (simp add: sessionsByName_None)
  have named: "resolve_named sessions (Sessions (Config st)) sessionId = of_live (last ?ms) no_target"
    using ne name
    by (simp add: resolve_named_def none live_prefix_loop_last sessionName_no_target
        sessionName_of_live)
  have "sessionName (of_live (last ?ms) no_target) \<noteq> ''''"
    using name by (simp add: of_live_def)
  then have home: "resolve_home w sessionId (of_live (last ?ms) no_target) = Returns (of_live (last ?ms) no_target)"
    by (rule resolve_home_named)
  have "ChangeSession_resolve w sessions sessionId allowCreateDir st =
          (Returns (of_live (last ?ms) no_target), st)"
    using assms(1-3) by (simp add: ChangeSession_resolve_def named home)
  then show ?thesis by (simp add: of_live_def no_target_def)
qed

theorem live_prefix_last_wins_witness:
  "ChangeSession_resolve example_world web_sessions ''web'' False (example_proc []) =
     (Returns \<lparr>sessionName = ''web2'', sessionDirPath = ''/srv/web2'',
               sessionStartCmd = '''', sessionEnv = []\<rparr>, example_proc [])"
proof -
  have dash: "countRepeatedChars ''web'' (CHR ''-'') = 0"
    by (simp add: countRepeatedChars_def)
  have exact: "''web'' \<notin> ts_Name ` set web_sessions"
    by (simp add: web_sessions_def example_session_def)
  have some: "\<exists>s\<in>set web_sessions. prefix ''web'' (ts_Name s)"
    by (simp add: web_sessions_def example_session_def)
  from live_prefix_last_wins [OF _ _ dash exact some, of example_world False "example_proc []"]
  show ?thesis by (simp add: web_sessions_def example_session_def)
qed

text \<open>
  C6: let the favourites hold a record named \<open>project\<close> with the alias \<open>p\<close>, no record
  before it with either token as name or alias, and let no live session have a name that
  starts with \<open>p\<close>. Then the tokens \<open>p\<close> and \<open>project\<close> resolve alike: to the name
  \<open>project\<close> with the directory, command and environment of that record.
\<close>

theorem alias_resolves_like_name:
  assumes "Sessions (Config st) = pre @ r # post"
    and "fs_Name r = ''project''" and "''p'' \<in> set (fs_Aliases r)"
    and "\<forall>f\<in>set pre. fs_Name f \<noteq> ''p'' \<and> fs_Name f \<noteq> ''project'' \<and>
                      ''p'' \<notin> set (fs_Aliases f) \<and> ''project'' \<notin> set (fs_Aliases f)"
    and "\<forall>s\<in>set sessions. \<not> prefix ''p'' (ts_Name s)"
  shows "ChangeSession_resolve w sessions ''p'' allowCreateDir st =
           ChangeSession_resolve w sessions ''project'' allowCreateDir st \<and>
         ChangeSession_resolve w sessions ''p'' allowCreateDir st =
           (Returns \<lparr>sessionName = ''project'', sessionDirPath = fs_Path r,
                     sessionStartCmd = fs_Cmd r, sessionEnv = fs_Env r\<rparr>, st)"
proof -
  have res: "ChangeSession_resolve w sessions sid allowCreateDir st =
               (Returns (of_favourite r no_target), st)"
    if sid: "sid = ''p'' \<or> sid = ''project''" for sid
  proof -
    have pp: "prefix ''p'' sid" using sid by auto
    have nolive: "\<not> prefix sid (ts_Name s)" if "s \<in> set sessions" for s
    proof
      assume "prefix sid (ts_Name s)"
      with pp have "prefix ''p'' (ts_Name s)" by (rule prefix_order.trans)
      with assms(5) that show False by blast
    qed
    then have "sid \<notin> ts_Name ` set sessions" by auto
    then have none: "sessionsByName sessions sid = None"
      by (simp add: sessionsByName_None)
    have nofilter: "filter (\<lambda>s. prefix sid (ts_Name s)) sessions = []"
      using nolive by (auto simp: filter_empty_conv)
    have skip: "favourite_exact_loop sid (pre @ r # post) no_target =
                  favourite_exact_loop sid (r # post) no_target"
      using assms(4) sid by (intro favourite_exact_loop_skip) (auto simp: no_target_def)
    have atr: "favourite_exact_loop sid (r # post) no_target = of_favourite r no_target"
      using sid assms(2,3) by (auto simp: alias_loop_match Let_def of_favourite_def)
    have exact: "favourite_exact_loop sid (pre @ r # post) no_target = of_favourite r no_target"
      using skip atr by simp
    have named: "resolve_named sessions (Sessions (Config st)) sid = of_favourite r no_target"
      using assms(2)
      by (simp add: resolve_named_def none live_prefix_loop_last nofilter assms(1) exact
          sessionName_no_target sessionName_of_favourite)
    have "sessionName (of_favourite r no_target) \<noteq> ''''"
      using assms(2) by (simp add: of_favourite_def)
    then have home: "resolve_home w sid (of_favourite r no_target) = Returns (of_favourite r no_target)"
      by (rule resolve_home_named)
    show ?thesis
      using sid by (auto simp: ChangeSession_resolve_def named home countRepeatedChars_def)
  qed
  from res [of "''p''"] res [of "''project''"] assms(2) show ?thesis
    by (simp add: of_favourite_def no_target_def)
qed

theorem alias_resolves_like_name_witness:
  "ChangeSession_resolve example_world web_sessions ''p'' False project_proc =
     ChangeSession_resolve example_world web_sessions ''project'' False project_proc \<and>
   ChangeSession_resolve example_world web_sessions ''p'' False project_proc =
     (Returns \<lparr>sessionName = ''project'', sessionDirPath = ''/home/u/project'',
               sessionStartCmd = ''vim'', sessionEnv = [(''STAGE'', ''dev'')]\<rparr>, project_proc)"
proof -
  have store: "Sessions (Config project_proc) =
     [example_favourite ''other'' ''/home/u/other'' [''o'']] @ project_favourite # []"
    by (simp add: project_proc_def example_proc_def)
  have name: "fs_Name project_favourite = ''project''"
    and al: "''p'' \<in> set (fs_Aliases project_favourite)"
    by (simp_all add: project_favourite_def)
  have before: "\<forall>f\<in>set [example_favourite ''other'' ''/home/u/other'' [''o'']].
      fs_Name f \<noteq> ''p'' \<and> fs_Name f \<noteq> ''project'' \<and>
      ''p'' \<notin> set (fs_Aliases f) \<and> ''project'' \<notin> set (fs_Aliases f)"
    by (simp add: example_favourite_def)
  have live: "\<forall>s\<in>set web_sessions. \<not> prefix ''p'' (ts_Name s)"
    by (simp add: web_sessions_def example_session_def)
  from alias_resolves_like_name [OF store name al before live, of example_world False]
  show ?thesis by (auto simp: project_favourite_def)
qed

section \<open>Claims about the favourites store\<close>

text \<open>
  C7: \<open>Touch(name, path)\<close> is idempotent. When the record named \<open>name\<close> is already at
  position 0 the call changes neither the order nor the dirty flag, and after any call a
  second call with the same arguments leaves the store as the first call left it.
\<close>

theorem Touch_idempotent:
  "(Sessions fc \<noteq> [] \<and> fs_Name (hd (Sessions fc)) = name \<longrightarrow> Touch name path fc = fc) \<and>
   Touch name path (Touch name path fc) = Touch name path fc"
proof -
  have first: "Touch name path c = c"
    if "Sessions c \<noteq> []" and "fs_Name (hd (Sessions c)) = name" for c
    using Touch_found_i_hd [OF that] by (simp add: Touch_def Let_def)
  have "Touch name path (Touch name path fc) = Touch name path fc"
  proof (cases "prefix ''/tmp/'' path")
    case True
    then show ?thesis by (simp add: Touch_def)
  next
    case False
    from Touch_sessions_hd [OF False, of name fc] show ?thesis
      by (intro first) simp_all
  qed
  with first show ?thesis by blast
qed

theorem Touch_idempotent_witness:
  "Sessions example_store \<noteq> [] \<and> fs_Name (hd (Sessions example_store)) = ''a'' \<and>
   Touch ''a'' ''/home/u/a'' example_store = example_store \<and>
   Touch ''b'' ''/home/u/b'' (Touch ''b'' ''/home/u/b'' example_store) =
     \<lparr>Sessions = [example_favourite ''b'' ''/home/u/b'' [''bb''],
                  example_favourite ''a'' ''/home/u/a'' []],
      changed = True\<rparr>"
  using Touch_idempotent [of example_store "''a''" "''/home/u/a''"]
    Touch_idempotent [of example_store "''b''" "''/home/u/b''"]
  by (simp add: example_store_def example_favourite_def Touch_def Let_def)

text \<open>
  C8: for a name that no record has and a path outside \<open>/tmp/\<close>, \<open>Touch\<close> puts one new
  record (the name, the path, no command, no aliases, no environment) at position 0,
  keeps the old records behind it in their order, and sets the dirty flag.
\<close>

theorem Touch_new_name_prepends:
  assumes "name \<notin> fs_Name ` set (Sessions fc)" and "\<not> prefix ''/tmp/'' path"
  shows "Sessions (Touch name path fc) =
           \<lparr>fs_Name = name, fs_Path = path, fs_Cmd = '''', fs_Aliases = [], fs_Env = []\<rparr>
             # Sessions fc \<and>
         changed (Touch name path fc)"
  using Touch_not_found [OF assms] by simp

theorem Touch_new_name_prepends_witness:
  "''c'' \<notin> fs_Name ` set (Sessions example_store) \<and> \<not> prefix ''/tmp/'' ''/home/u/c'' \<and>
   Sessions (Touch ''c'' ''/home/u/c'' example_store) =
     [example_favourite ''c'' ''/home/u/c'' [],
      example_favourite ''a'' ''/home/u/a'' [],
      example_favourite ''b'' ''/home/u/b'' [''bb'']] \<and>
   changed (Touch ''c'' ''/home/u/c'' example_store)"
  using Touch_new_name_prepends [of "''c''" example_store "''/home/u/c''"]
  by (simp add: example_store_def example_favourite_def)

text \<open>
  C9, as the code has it: \<open>Save\<close> writes nothing when the store is not dirty. When it is
  dirty and the list of records is encoded as \<open>bs\<close>, the one call made is the write of
  \<open>bs\<close> to the config path with mode 0640 (416): read and write for the owner, read
  for the group, nothing for others.
\<close>

theorem Save_writes_only_when_changed:
  "(\<not> changed (Config st) \<longrightarrow> Save w st = (Returns (), st)) \<and>
   (changed (Config st) \<longrightarrow> json_MarshalIndent w (Sessions (Config st)) = Inr bs \<longrightarrow>
      events (snd (Save w st)) = events st @ [WriteFileCall (ConfigPath w) bs 416] \<and>
      Config (snd (Save w st)) = Config st) \<and>
   (416 :: 32 word) AND 448 = 384 \<and> (416 :: 32 word) AND 56 = 32 \<and> (416 :: 32 word) AND 7 = 0"
  by (simp add: Save_def emit_def Let_def split: option.split)

theorem Save_writes_only_when_changed_witness:
  "\<not> changed (Config (example_proc (Sessions example_store))) \<and>
   Save example_world (example_proc (Sessions example_store)) =
     (Returns (), example_proc (Sessions example_store)) \<and>
   changed (Config example_dirty_proc) \<and>
   json_MarshalIndent example_world (Sessions (Config example_dirty_proc)) = Inr ''{}'' \<and>
   events (snd (Save example_world example_dirty_proc)) =
     [WriteFileCall ''/home/u/.config/pr.json'' ''{}'' 416]"
  using Save_writes_only_when_changed [of "example_proc (Sessions example_store)" example_world]
    Save_writes_only_when_changed [of example_dirty_proc example_world "''{}''"]
  by (simp add: example_proc_def example_dirty_proc_def example_world_def)

text \<open>
  C9 as the specification has it fails: the mode of the write grants the group read access
  (the bits 077 of 0640 are not all clear).
\<close>

theorem Save_mode_counterexample:
  "events (snd (Save example_world example_dirty_proc)) =
     [WriteFileCall ''/home/u/.config/pr.json'' ''{}'' 416] \<and>
   (416 :: 32 word) AND 63 \<noteq> 0"
  by (simp add: Save_def emit_def Let_def example_dirty_proc_def example_world_def)

text \<open>
  C10: when a record named \<open>name\<close> is in the store, \<open>Touch(name, path)\<close> keeps every
  record as it is stored (path, command, aliases and environment), whatever the path
  argument is: the first record of that name moves to position 0, or nothing moves when
  it is there already or the path lies under \<open>/tmp/\<close>.
\<close>

theorem Touch_keeps_existing_record:
  assumes "Sessions fc = pre @ r # post" and "fs_Name r = name"
    and "\<forall>x\<in>set pre. fs_Name x \<noteq> name"
  shows "Sessions (Touch name path fc) =
           (if prefix ''/tmp/'' path \<or> pre = [] then pre @ r # post else r # pre @ post)"
proof (cases "prefix ''/tmp/'' path")
  case True
  with assms(1) show ?thesis by (simp add: Touch_def)
next
  case False
  from Touch_found [OF assms False] assms(1) False show ?thesis by simp
qed

theorem Touch_keeps_existing_record_witness:
  "Sessions example_store =
     [example_favourite ''a'' ''/home/u/a'' []] @ example_favourite ''b'' ''/home/u/b'' [''bb''] # [] \<and>
   fs_Name (example_favourite ''b'' ''/home/u/b'' [''bb'']) = ''b'' \<and>
   fs_Name (example_favourite ''a'' ''/home/u/a'' []) \<noteq> ''b'' \<and>
   Sessions (Touch ''b'' ''/srv/elsewhere'' example_store) =
     [example_favourite ''b'' ''/home/u/b'' [''bb''], example_favourite ''a'' ''/home/u/a'' []]"
  using Touch_keeps_existing_record
    [of example_store "[example_favourite ''a'' ''/home/u/a'' []]"
        "example_favourite ''b'' ''/home/u/b'' [''bb'']" "[]" "''b''" "''/srv/elsewhere''"]
  by (simp add: example_store_def example_favourite_def)

end
